theory Spec2Isabelle
  imports Complex_Main "HOL-Library.Multiset"
begin

section \<open>JavaScript strings and numbers used by the classifier\<close>

text \<open>
  A JavaScript string is a sequence of code units. The model uses \<open>string\<close>, so a
  \<open>char\<close> stands for a code unit below 256; texts with larger code units are outside
  the model. Of the code units that \<^verbatim>\<open>String.prototype.trim\<close> and \<^verbatim>\<open>parseInt\<close> treat as
  white space or line terminator, these seven are below 256: TAB, LF, VT, FF, CR, SPACE
  and the no-break space.
\<close>

definition isWhiteSpace :: "char \<Rightarrow> bool" where
  "isWhiteSpace c \<longleftrightarrow>
     c \<in> set [CHR 0x09, CHR 0x0A, CHR 0x0B, CHR 0x0C, CHR 0x0D, CHR 0x20, CHR 0xA0]"

definition trimStart :: "string \<Rightarrow> string" where
  "trimStart s = dropWhile isWhiteSpace s"

definition trim :: "string \<Rightarrow> string" where
  "trim s = rev (trimStart (rev (trimStart s)))"

text \<open>
  \<^verbatim>\<open>s.split(d)\<close> for a separator of one code unit and no limit: the pieces between
  the occurrences of the separator, so one piece more than there are separators; the empty
  string gives one empty piece.
\<close>

fun split :: "char \<Rightarrow> string \<Rightarrow> string list" where
  "split d [] = [[]]"
| "split d (c # cs) =
     (if c = d then [] # split d cs
      else (case split d cs of [] \<Rightarrow> [[c]] | p # ps \<Rightarrow> (c # p) # ps))"

text \<open>
  A JavaScript number as \<^verbatim>\<open>parseInt\<close> can return it. Integers of magnitude up to
  \<open>2 ^ 53\<close> are doubles exactly (\<open>Num\<close>). Beyond that the result is the double that the
  engine chooses for the mathematical integer, possibly an infinity; the model keeps the
  mathematical integer and marks it (\<open>Approx\<close>). The sign of a zero is not tracked.
\<close>

datatype number = NaN | Num int | Approx int

definition isNaN :: "number \<Rightarrow> bool" where
  "isNaN n \<longleftrightarrow> n = NaN"

definition toNumber :: "int \<Rightarrow> number" where
  "toNumber n = (if \<bar>n\<bar> \<le> 2 ^ 53 then Num n else Approx n)"

definition digitValue :: "char \<Rightarrow> nat option" where
  "digitValue c =
     (let n = (of_char c :: nat) in
      if 48 \<le> n \<and> n \<le> 57 then Some (n - 48)
      else if 97 \<le> n \<and> n \<le> 122 then Some (n - 87)
      else if 65 \<le> n \<and> n \<le> 90 then Some (n - 55)
      else None)"

definition isRadixDigit :: "nat \<Rightarrow> char \<Rightarrow> bool" where
  "isRadixDigit R c = (case digitValue c of None \<Rightarrow> False | Some v \<Rightarrow> v < R)"

definition mathInt :: "nat \<Rightarrow> string \<Rightarrow> int" where
  "mathInt R z =
     foldl (\<lambda>a c. a * int R + (case digitValue c of None \<Rightarrow> 0 | Some v \<Rightarrow> int v)) 0 z"

fun stripSign :: "string \<Rightarrow> int \<times> string" where
  "stripSign [] = (1, [])"
| "stripSign (c # cs) =
     (if c = CHR ''-'' then (- 1, cs)
      else if c = CHR ''+'' then (1, cs)
      else (1, c # cs))"

fun stripPrefix :: "string \<Rightarrow> nat \<times> string" where
  "stripPrefix (c0 # c1 # cs) =
     (if c0 = CHR ''0'' \<and> (c1 = CHR ''x'' \<or> c1 = CHR ''X'') then (16, cs)
      else (10, c0 # c1 # cs))"
| "stripPrefix s = (10, s)"

text \<open>
  \<^verbatim>\<open>parseInt(string)\<close> with no radix argument, as line 79 calls it: leading white space
  is skipped, a sign is read, the radix is 10 unless the rest starts with \<^verbatim>\<open>0x\<close> or
  \<^verbatim>\<open>0X\<close> (then that prefix is removed and the radix is 16), the longest run of digits
  of the radix is read, and the result is NaN when that run is empty.
\<close>

definition parseInt :: "string \<Rightarrow> number" where
  "parseInt inputString =
     (let (sign, s) = stripSign (trimStart inputString);
          (R, s') = stripPrefix s;
          z = takeWhile (isRadixDigit R) s'
      in if z = [] then NaN else toNumber (sign * mathInt R z))"

section \<open>The classification and the parse of the model's text\<close>

record classification =
  isScam :: bool
  scamLevel :: string
  scamPercentage :: number
  scamWarning :: string

definition unknownResult :: classification where
  "unknownResult =
     \<lparr>isScam = False, scamLevel = ''UNKNOWN'', scamPercentage = Num 0,
      scamWarning = ''Could not determine scam status from AI response.''\<rparr>"

text \<open>
  Lines 75 to 92 of \<^verbatim>\<open>checkMessageForScam\<close>: what the function returns once it holds
  the text of the first part of the first candidate.
\<close>

definition parseRawText :: "string \<Rightarrow> classification" where
  "parseRawText rawText =
     (let parts = split CHR ''|'' rawText in
      if length parts \<ge> 3 then
        (let level = trim (parts ! 0);
             percentage = parseInt (trim (parts ! 1));
             explanation = trim (parts ! 2)
         in if level \<in> set [''SAFE'', ''POTENTIAL_SCAM'', ''HIGHLY_LIKELY_SCAM'']
               \<and> \<not> isNaN percentage
            then \<lparr>isScam = (level \<noteq> ''SAFE''), scamLevel = level,
                  scamPercentage = percentage,
                  scamWarning = (if explanation = [] then ''No specific reason provided.''
                                 else explanation)\<rparr>
            else unknownResult)
      else unknownResult)"

section \<open>The classifier call\<close>

text \<open>
  The JSON that \<^verbatim>\<open>response.json()\<close> yields, typed as the function reads it: the keys
  \<^verbatim>\<open>error.message\<close> of an error body and
  \<^verbatim>\<open>candidates[0].content.parts[0].text\<close> of a completion, each of them optional.
  The field \<open>partText\<close> is the key \<^verbatim>\<open>text\<close>.
\<close>

record errorInfo =
  message :: "string option"

record part =
  partText :: "string option"

record content =
  parts :: "part list option"

record candidate =
  content :: "content option"

record body =
  error :: "errorInfo option"
  candidates :: "candidate list option"

text \<open>
  A response: \<open>json\<close> is what awaiting \<^verbatim>\<open>response.json()\<close> does, either rejecting with
  an error of the given message (\<open>Inl\<close>) or yielding the parsed body, \<open>None\<close> for the
  JSON value \<^verbatim>\<open>null\<close>. The call of \<^verbatim>\<open>fetch\<close> itself rejects or resolves.
\<close>

record response =
  ok :: bool
  statusText :: string
  json :: "string + body option"

datatype fetchOutcome = FetchRejects string | FetchResolves response

text \<open>\<^verbatim>\<open>errorData?.error?.message || 'Unknown AI error'\<close>: the empty string is falsy.\<close>

definition errorDataMessage :: "body option \<Rightarrow> string" where
  "errorDataMessage errorData =
     (case errorData of
        None \<Rightarrow> ''Unknown AI error''
      | Some d \<Rightarrow>
          (case error d of
             None \<Rightarrow> ''Unknown AI error''
           | Some e \<Rightarrow>
               (case message e of
                  None \<Rightarrow> ''Unknown AI error''
                | Some m \<Rightarrow> if m = [] then ''Unknown AI error'' else m)))"

text \<open>
  The \<^verbatim>\<open>try\<close> block, lines 55 to 96: \<open>Inl\<close> is the message of the error thrown,
  \<open>Inr\<close> the value returned. Reading a property of \<^verbatim>\<open>null\<close> (a body that is
  \<^verbatim>\<open>null\<close>) and calling \<^verbatim>\<open>split\<close> on \<^verbatim>\<open>undefined\<close> (a first part with no text)
  throw a TypeError whose message is the engine's: it is the parameter
  \<open>typeErrorMessage\<close>. The outcome of the request is an argument, so the prompt, which
  only the request depends on, is not modelled.
\<close>

definition tryBlock :: "string \<Rightarrow> fetchOutcome \<Rightarrow> string + classification" where
  "tryBlock typeErrorMessage outcome =
     (case outcome of
        FetchRejects m \<Rightarrow> Inl m
      | FetchResolves response \<Rightarrow>
          if \<not> ok response then
            (case json response of
               Inl m \<Rightarrow> Inl m
             | Inr errorData \<Rightarrow>
                 Inl (''AI API request failed: '' @ statusText response @ '' - ''
                      @ errorDataMessage errorData))
          else
            (case json response of
               Inl m \<Rightarrow> Inl m
             | Inr None \<Rightarrow> Inl typeErrorMessage
             | Inr (Some result) \<Rightarrow>
                 (case candidates result of
                    Some (c # _) \<Rightarrow>
                      (case content c of
                         Some ct \<Rightarrow>
                           (case parts ct of
                              Some (p # _) \<Rightarrow>
                                (case partText p of
                                   None \<Rightarrow> Inl typeErrorMessage
                                 | Some rawText \<Rightarrow> Inr (parseRawText rawText))
                            | _ \<Rightarrow>
                                Inl ''Could not understand the AI response. Unexpected format.'')
                       | None \<Rightarrow>
                           Inl ''Could not understand the AI response. Unexpected format.'')
                  | _ \<Rightarrow> Inl ''Could not understand the AI response. Unexpected format.'')))"

text \<open>The \<^verbatim>\<open>catch\<close> block, line 99.\<close>

definition errorResult :: "string \<Rightarrow> classification" where
  "errorResult msg =
     \<lparr>isScam = False, scamLevel = ''ERROR'', scamPercentage = Num 0,
      scamWarning = ''Error during analysis: '' @ msg\<rparr>"

definition checkMessageForScam :: "string \<Rightarrow> fetchOutcome \<Rightarrow> classification" where
  "checkMessageForScam typeErrorMessage outcome =
     (case tryBlock typeErrorMessage outcome of
        Inl msg \<Rightarrow> errorResult msg
      | Inr analysis \<Rightarrow> analysis)"

text \<open>A successful response whose first candidate's first part carries the given text.\<close>

definition completion :: "string \<Rightarrow> fetchOutcome" where
  "completion rawText =
     FetchResolves
       \<lparr>ok = True, statusText = ''OK'',
        json = Inr (Some \<lparr>error = None,
                          candidates = Some [\<lparr>content =
                            Some \<lparr>parts = Some [\<lparr>partText = Some rawText\<rparr>]\<rparr>\<rparr>]\<rparr>)\<rparr>"

section \<open>Messages and their order on display\<close>

datatype sender = user | ai

record Timestamp =
  seconds :: int
  nanoseconds :: int

text \<open>
  The data of a document as \<^verbatim>\<open>handleSendMessage\<close> passes it to \<^verbatim>\<open>addDoc\<close>. The field
  \<open>msgText\<close> is the key \<^verbatim>\<open>text\<close>. The four keys \<^verbatim>\<open>isScam\<close>, \<^verbatim>\<open>scamLevel\<close>,
  \<^verbatim>\<open>scamPercentage\<close> and \<^verbatim>\<open>scamWarning\<close> are written together or not at all, so they
  are one optional classification. Every document is written with
  \<^verbatim>\<open>timestamp: serverTimestamp()\<close>, which the server replaces; a message read back
  (interface \<^verbatim>\<open>Message\<close>) has the document's id (\<open>msgId\<close>) and a timestamp that is absent
  while the write is pending.
\<close>

record docData =
  msgText :: string
  sender :: sender
  analysis :: "classification option"

record message = docData +
  msgId :: string
  timestamp :: "Timestamp option"

text \<open>
  Lines 249 and 250: the sort key of a message. The source computes in doubles; \<open>fl\<close>
  is the rounding of an exact result to a double and is a parameter, so that what is
  proved holds whatever the rounding is.
\<close>

definition time :: "(real \<Rightarrow> real) \<Rightarrow> message \<Rightarrow> real" where
  "time fl m =
     (case timestamp m of
        None \<Rightarrow> 0
      | Some t \<Rightarrow> fl (real_of_int (seconds t) + fl (real_of_int (nanoseconds t) / 10 ^ 9)))"

text \<open>
  The comparator of lines 248 to 252. The difference of two doubles has the sign of
  their exact difference, and the sort reads only the sign.
\<close>

definition compareFn :: "(real \<Rightarrow> real) \<Rightarrow> message \<Rightarrow> message \<Rightarrow> real" where
  "compareFn fl a b = time fl a - time fl b"

text \<open>
  \<^verbatim>\<open>Array.prototype.sort\<close> is stable, and with a comparator that is a total preorder its
  result is determined: the stable insertion sort below computes it.
\<close>

fun insertBy :: "('a \<Rightarrow> 'a \<Rightarrow> real) \<Rightarrow> 'a \<Rightarrow> 'a list \<Rightarrow> 'a list" where
  "insertBy cmp x [] = [x]"
| "insertBy cmp x (y # ys) = (if cmp x y \<le> 0 then x # y # ys else y # insertBy cmp x ys)"

definition sortBy :: "('a \<Rightarrow> 'a \<Rightarrow> real) \<Rightarrow> 'a list \<Rightarrow> 'a list" where
  "sortBy cmp xs = foldr (insertBy cmp) xs []"

definition sortedMessages :: "(real \<Rightarrow> real) \<Rightarrow> message list \<Rightarrow> message list" where
  "sortedMessages fl messages = sortBy (compareFn fl) messages"

section \<open>Sending a message\<close>

text \<open>
  \<^verbatim>\<open>handleSendMessage\<close> is an asynchronous function: a call runs until its first
  \<^verbatim>\<open>await\<close> and is resumed when the awaited promise settles. A call in flight is a
  \<open>turn\<close>: the \<^verbatim>\<open>userId\<close> and \<^verbatim>\<open>text\<close> of its closure and the \<^verbatim>\<open>await\<close> it is
  suspended at. The state is the component's state that the function reads and writes
  (\<open>errorText\<close> is the state variable \<^verbatim>\<open>error\<close>), the collections
  \<^verbatim>\<open>users/{userId}/messages\<close> in the order of their writes, and the calls in flight.
  The guard of line 388 reads the state of the latest render; the model reads the
  current state.
\<close>

datatype suspended = AwaitUserDoc | AwaitAiDoc | AwaitAnalysis | AwaitFinalDoc classification

record turn =
  turnUserId :: string
  turnText :: string
  awaiting :: suspended

record chat =
  userId :: "string option"
  isSendingMessage :: bool
  errorText :: string
  messagesOf :: "string \<Rightarrow> docData list"
  inFlight :: "turn list"

definition initial :: "(string \<Rightarrow> docData list) \<Rightarrow> chat" where
  "initial stored =
     \<lparr>userId = None, isSendingMessage = False, errorText = [], messagesOf = stored,
      inFlight = []\<rparr>"

definition userDoc :: "string \<Rightarrow> docData" where
  "userDoc txt = \<lparr>msgText = txt, sender = user, analysis = None\<rparr>"

definition aiDoc :: docData where
  "aiDoc =
     \<lparr>msgText = ''I've analyzed this message for potential scam indicators.'',
      sender = ai, analysis = None\<rparr>"

definition finalDoc :: "classification \<Rightarrow> docData" where
  "finalDoc scamAnalysis =
     \<lparr>msgText = ''Analysis complete.'', sender = ai, analysis = Some scamAnalysis\<rparr>"

text \<open>An \<^verbatim>\<open>addDoc\<close> that resolves has written its document at the end of the collection.\<close>

definition addDoc :: "string \<Rightarrow> docData \<Rightarrow> chat \<Rightarrow> chat" where
  "addDoc uid d s = s\<lparr>messagesOf := (messagesOf s)(uid := messagesOf s uid @ [d])\<rparr>"

text \<open>The \<^verbatim>\<open>finally\<close> block: the flag is cleared and the call is over.\<close>

definition finish :: "nat \<Rightarrow> chat \<Rightarrow> chat" where
  "finish i s =
     s\<lparr>isSendingMessage := False,
       inFlight := take i (inFlight s) @ drop (Suc i) (inFlight s)\<rparr>"

definition suspendAt :: "nat \<Rightarrow> suspended \<Rightarrow> chat \<Rightarrow> chat" where
  "suspendAt i p s = s\<lparr>inFlight := (inFlight s)[i := (inFlight s ! i)\<lparr>awaiting := p\<rparr>]\<rparr>"

text \<open>
  The call itself, lines 388 to 393: the guard (an empty \<^verbatim>\<open>userId\<close> is falsy too), the
  flag, and the first \<^verbatim>\<open>addDoc\<close> issued.
\<close>

definition handleSendMessage :: "string \<Rightarrow> chat \<Rightarrow> chat" where
  "handleSendMessage txt s =
     (case userId s of
        None \<Rightarrow> s
      | Some uid \<Rightarrow>
          if uid = [] \<or> isSendingMessage s then s
          else s\<lparr>isSendingMessage := True,
                 inFlight := inFlight s @ [\<lparr>turnUserId = uid, turnText = txt, awaiting = AwaitUserDoc\<rparr>]\<rparr>)"

text \<open>
  What can happen: the authentication listener sets the user (lines 349 to 351), the
  input calls \<^verbatim>\<open>handleSendMessage\<close>, and a promise that the call in flight at position
  \<open>i\<close> awaits settles. \<^verbatim>\<open>checkMessageForScam\<close> never rejects, so it only returns.
\<close>

datatype event =
    AuthStateChanged string
  | SendMessage string
  | AddDocResolves nat
  | AddDocRejects nat
  | AnalysisReturns nat string fetchOutcome

fun step :: "event \<Rightarrow> chat \<Rightarrow> chat" where
  "step (AuthStateChanged uid) s = s\<lparr>userId := Some uid\<rparr>"
| "step (SendMessage txt) s = handleSendMessage txt s"
| "step (AddDocResolves i) s =
     (if i < length (inFlight s) then
        (let t = inFlight s ! i in
         case awaiting t of
           AwaitUserDoc \<Rightarrow> suspendAt i AwaitAiDoc (addDoc (turnUserId t) (userDoc (turnText t)) s)
         | AwaitAiDoc \<Rightarrow> suspendAt i AwaitAnalysis (addDoc (turnUserId t) aiDoc s)
         | AwaitAnalysis \<Rightarrow> s
         | AwaitFinalDoc scamAnalysis \<Rightarrow> finish i (addDoc (turnUserId t) (finalDoc scamAnalysis) s))
      else s)"
| "step (AddDocRejects i) s =
     (if i < length (inFlight s) \<and> awaiting (inFlight s ! i) \<noteq> AwaitAnalysis then
        finish i (s\<lparr>errorText := ''Failed to send message. Please try again.''\<rparr>)
      else s)"
| "step (AnalysisReturns i typeErrorMessage outcome) s =
     (if i < length (inFlight s) \<and> awaiting (inFlight s ! i) = AwaitAnalysis then
        suspendAt i (AwaitFinalDoc (checkMessageForScam typeErrorMessage outcome)) s
      else s)"

definition run :: "event list \<Rightarrow> chat \<Rightarrow> chat" where
  "run evs s = foldl (\<lambda>s e. step e s) s evs"

section \<open>The explanation as the specification words it\<close>

text \<open>
  The text after the first occurrence of a delimiter, and the explanation as the
  specification words it: the remainder of the text after the first two delimiters,
  trimmed. These two follow the specification, not the source.
\<close>

definition afterDelimiter :: "char \<Rightarrow> string \<Rightarrow> string" where
  "afterDelimiter d s = drop 1 (dropWhile (\<lambda>c. c \<noteq> d) s)"

definition specExplanation :: "string \<Rightarrow> string" where
  "specExplanation rawText = trim (afterDelimiter CHR ''|'' (afterDelimiter CHR ''|'' rawText))"

section \<open>Fixtures and the specification's rules\<close>

text \<open>
  The rule of the data model for \<open>isScam\<close>: for the three levels the model reports it
  is \<open>level \<noteq> SAFE\<close>, and for UNKNOWN and ERROR it is false.
\<close>

definition levelRule :: "classification \<Rightarrow> bool" where
  "levelRule c \<longleftrightarrow>
     (scamLevel c \<in> set [''SAFE'', ''POTENTIAL_SCAM'', ''HIGHLY_LIKELY_SCAM'']
        \<and> isScam c = (scamLevel c \<noteq> ''SAFE''))
     \<or> (scamLevel c \<in> set [''UNKNOWN'', ''ERROR''] \<and> isScam c = False)"

text \<open>The decimal numeral of an integer, to build texts that carry a given confidence.\<close>

definition digitChar :: "nat \<Rightarrow> char" where
  "digitChar k = char_of (48 + k)"

fun digits :: "nat \<Rightarrow> string" where
  "digits n = (if n < 10 then [digitChar n] else digits (n div 10) @ [digitChar (n mod 10)])"

definition decimal :: "int \<Rightarrow> string" where
  "decimal n = (if n < 0 then ''-'' @ digits (nat (- n)) else digits (nat n))"

text \<open>
  Messages for the example of the ordering: a message of the user with a given id and
  timestamp, and the timestamp of a whole second.
\<close>

definition messageAt :: "string \<Rightarrow> Timestamp option \<Rightarrow> message" where
  "messageAt i t = \<lparr>msgText = ''hello'', sender = user, analysis = None, msgId = i, timestamp = t\<rparr>"

definition wholeSecond :: "int \<Rightarrow> Timestamp option" where
  "wholeSecond n = Some \<lparr>seconds = n, nanoseconds = 0\<rparr>"

text \<open>
  At most one call of \<^verbatim>\<open>handleSendMessage\<close> is in flight, and the flag
  \<^verbatim>\<open>isSendingMessage\<close> is set exactly while one is.
\<close>

definition oneAtATime :: "chat \<Rightarrow> bool" where
  "oneAtATime s \<longleftrightarrow>
     length (inFlight s) \<le> 1 \<and> (isSendingMessage s \<longleftrightarrow> inFlight s \<noteq> [])"

section \<open>Properties of the split\<close>

lemma split_not_Nil: "split d s \<noteq> []"
  by (induction s) (auto split: list.splits)

lemma split_no_separator: "d \<notin> set a \<Longrightarrow> split d a = [a]"
  by (induction a) auto

lemma split_separator: "d \<notin> set a \<Longrightarrow> split d (a @ d # s) = a # split d s"
  by (induction a) auto

lemma length_split: "length (split d s) = Suc (count_list s d)"
  by (induction s) (auto simp: split_not_Nil split: list.splits)

lemma split_unfold:
  "split d s =
     takeWhile (\<lambda>c. c \<noteq> d) s # (if d \<in> set s then split d (afterDelimiter d s) else [])"
  by (induction s) (auto simp: afterDelimiter_def split_not_Nil split: list.splits)

lemma split_third:
  assumes "3 \<le> length (split d s)"
  shows "split d s ! 2 = takeWhile (\<lambda>c. c \<noteq> d) (afterDelimiter d (afterDelimiter d s))"
proof -
  have "d \<in> set s"
    using assms split_no_separator [of d s] by (cases "d \<in> set s") auto
  then have s1: "split d s = takeWhile (\<lambda>c. c \<noteq> d) s # split d (afterDelimiter d s)"
    using split_unfold [of d s] by simp
  then have l2: "2 \<le> length (split d (afterDelimiter d s))"
    using assms by simp
  have "d \<in> set (afterDelimiter d s)"
    using l2 split_no_separator [of d "afterDelimiter d s"]
    by (cases "d \<in> set (afterDelimiter d s)") auto
  then have s2: "split d (afterDelimiter d s) =
      takeWhile (\<lambda>c. c \<noteq> d) (afterDelimiter d s)
        # split d (afterDelimiter d (afterDelimiter d s))"
    using split_unfold [of d "afterDelimiter d s"] by simp
  have "split d s ! 2 = hd (split d (afterDelimiter d (afterDelimiter d s)))"
    using s1 s2 by (simp add: hd_conv_nth split_not_Nil)
  also have "\<dots> = takeWhile (\<lambda>c. c \<noteq> d) (afterDelimiter d (afterDelimiter d s))"
    by (subst split_unfold) simp
  finally show ?thesis .
qed

lemma completion_parsed:
  "checkMessageForScam typeErrorMessage (completion rawText) = parseRawText rawText"
  by (simp add: checkMessageForScam_def tryBlock_def completion_def)

section \<open>Properties of the parse\<close>

lemma parse_shape:
  "parseRawText rawText = unknownResult \<or>
   (3 \<le> length (split CHR ''|'' rawText)
    \<and> trim (split CHR ''|'' rawText ! 0) \<in> set [''SAFE'', ''POTENTIAL_SCAM'', ''HIGHLY_LIKELY_SCAM'']
    \<and> parseRawText rawText =
        \<lparr>isScam = (trim (split CHR ''|'' rawText ! 0) \<noteq> ''SAFE''),
         scamLevel = trim (split CHR ''|'' rawText ! 0),
         scamPercentage = parseInt (trim (split CHR ''|'' rawText ! 1)),
         scamWarning = (if trim (split CHR ''|'' rawText ! 2) = [] then ''No specific reason provided.''
                        else trim (split CHR ''|'' rawText ! 2))\<rparr>)"
  by (simp add: parseRawText_def Let_def)

lemma parse_accepts:
  assumes "3 \<le> length (split CHR ''|'' rawText)"
    and "trim (split CHR ''|'' rawText ! 0) \<in> set [''SAFE'', ''POTENTIAL_SCAM'', ''HIGHLY_LIKELY_SCAM'']"
    and "\<not> isNaN (parseInt (trim (split CHR ''|'' rawText ! 1)))"
  shows "parseRawText rawText =
        \<lparr>isScam = (trim (split CHR ''|'' rawText ! 0) \<noteq> ''SAFE''),
         scamLevel = trim (split CHR ''|'' rawText ! 0),
         scamPercentage = parseInt (trim (split CHR ''|'' rawText ! 1)),
         scamWarning = (if trim (split CHR ''|'' rawText ! 2) = [] then ''No specific reason provided.''
                        else trim (split CHR ''|'' rawText ! 2))\<rparr>"
  using assms by (simp add: parseRawText_def Let_def)

lemma tryBlock_returns:
  assumes "tryBlock typeErrorMessage outcome = Inr c"
  shows "\<exists>rawText. c = parseRawText rawText"
  using assms
  by (auto simp: tryBlock_def split: fetchOutcome.splits sum.splits option.splits list.splits if_splits)

lemma classifier_cases:
  "(\<exists>msg. checkMessageForScam typeErrorMessage outcome = errorResult msg)
   \<or> (\<exists>rawText. checkMessageForScam typeErrorMessage outcome = parseRawText rawText)"
proof (cases "tryBlock typeErrorMessage outcome")
  case (Inl msg)
  then show ?thesis by (auto simp: checkMessageForScam_def)
next
  case (Inr c)
  then show ?thesis using tryBlock_returns [OF Inr] by (auto simp: checkMessageForScam_def)
qed

lemma levelRule_parse: "levelRule (parseRawText rawText)"
  using parse_shape [of rawText]
  by (elim disjE conjE) (simp_all add: levelRule_def unknownResult_def)

lemma levelRule_error: "levelRule (errorResult msg)"
  by (simp add: levelRule_def errorResult_def)

lemma decimal_not_white: "isRadixDigit 10 c \<Longrightarrow> \<not> isWhiteSpace c"
  by (auto simp: isRadixDigit_def digitValue_def isWhiteSpace_def Let_def split: option.splits if_splits)

lemma decimal_not_sign: "isRadixDigit 10 c \<Longrightarrow> c \<noteq> CHR ''-'' \<and> c \<noteq> CHR ''+'' \<and> c \<noteq> CHR ''x'' \<and> c \<noteq> CHR ''X''"
  by (auto simp: isRadixDigit_def digitValue_def Let_def split: option.splits if_splits)

lemma takeWhile_digits:
  assumes "\<forall>c\<in>set ds. P c" and "case rest of [] \<Rightarrow> True | r # _ \<Rightarrow> \<not> P r"
  shows "takeWhile P (ds @ rest) = ds"
  using assms by (cases rest) simp_all

lemma stripPrefix_decimal:
  assumes "ds \<noteq> []" and "\<forall>c\<in>set ds. isRadixDigit 10 c"
    and "case rest of [] \<Rightarrow> True | r # _ \<Rightarrow> \<not> (ds = ''0'' \<and> r \<in> set [CHR ''x'', CHR ''X''])"
  shows "stripPrefix (ds @ rest) = (10, ds @ rest)"
proof (cases ds)
  case Nil
  with assms show ?thesis by simp
next
  case (Cons d0 ds')
  show ?thesis
  proof (cases ds')
    case Nil
    with Cons assms show ?thesis by (cases rest) auto
  next
    case (Cons d1 ds'')
    with \<open>ds = d0 # ds'\<close> assms(2) have "isRadixDigit 10 d1" by simp
    then have "d1 \<noteq> CHR ''x'' \<and> d1 \<noteq> CHR ''X''" using decimal_not_sign by blast
    with Cons \<open>ds = d0 # ds'\<close> show ?thesis by simp
  qed
qed

lemma parseInt_decimal_prefix:
  assumes sg: "sg \<in> set [[], ''+'', ''-'']"
    and ds: "ds \<noteq> []" "\<forall>c\<in>set ds. isRadixDigit 10 c"
    and rest: "case rest of [] \<Rightarrow> True
               | r # _ \<Rightarrow> \<not> isRadixDigit 10 r \<and> \<not> (ds = ''0'' \<and> r \<in> set [CHR ''x'', CHR ''X''])"
  shows "parseInt (sg @ ds @ rest) = toNumber ((if sg = ''-'' then - 1 else 1) * mathInt 10 ds)"
proof -
  obtain d0 ds' where d: "ds = d0 # ds'" using ds(1) by (cases ds) auto
  then have d0: "isRadixDigit 10 d0" using ds(2) by simp
  have nw: "trimStart (sg @ ds @ rest) = sg @ ds @ rest"
    using sg d decimal_not_white [OF d0]
    by (auto simp: trimStart_def isWhiteSpace_def)
  have ss: "stripSign (sg @ ds @ rest) = ((if sg = ''-'' then - 1 else 1), ds @ rest)"
    using sg d decimal_not_sign [OF d0] by auto
  have "case rest of [] \<Rightarrow> True | r # _ \<Rightarrow> \<not> (ds = ''0'' \<and> r \<in> set [CHR ''x'', CHR ''X''])"
    using rest by (cases rest) auto
  then have sp: "stripPrefix (ds @ rest) = (10, ds @ rest)"
    by (rule stripPrefix_decimal [OF ds(1) ds(2)])
  have tw: "takeWhile (isRadixDigit 10) (ds @ rest) = ds"
    using takeWhile_digits [of ds "isRadixDigit 10" rest] ds(2) rest by (cases rest) auto
  show ?thesis
    using ds(1) by (simp add: parseInt_def nw ss sp tw)
qed

lemma toNumber_not_NaN: "\<not> isNaN (toNumber n)"
  by (simp add: toNumber_def isNaN_def)

lemma split_two:
  assumes "CHR ''|'' \<notin> set a" and "CHR ''|'' \<notin> set b"
  shows "split CHR ''|'' (a @ ''|'' @ b @ ''|'' @ rest) = a # b # split CHR ''|'' rest"
  using assms by (simp add: split_separator)

declare digits.simps [simp del]

lemma digitValue_digitChar: "k < 10 \<Longrightarrow> digitValue (digitChar k) = Some k"
  by (simp add: digitValue_def digitChar_def Let_def)

lemma decimal_digitChar: "k < 10 \<Longrightarrow> isRadixDigit 10 (digitChar k)"
  by (simp add: isRadixDigit_def digitValue_digitChar)

lemma mathInt_snoc:
  "mathInt R (z @ [c]) = mathInt R z * int R + (case digitValue c of None \<Rightarrow> 0 | Some v \<Rightarrow> int v)"
  by (simp add: mathInt_def)

lemma digits_not_Nil: "digits n \<noteq> []"
  by (subst digits.simps) simp

lemma digits_decimal: "\<forall>c\<in>set (digits n). isRadixDigit 10 c"
proof (induction n rule: digits.induct)
  case (1 n)
  show ?case
  proof (cases "n < 10")
    case True
    then show ?thesis by (subst digits.simps) (simp add: decimal_digitChar)
  next
    case False
    then show ?thesis using 1 by (subst digits.simps) (simp add: decimal_digitChar)
  qed
qed

lemma mathInt_digits: "mathInt 10 (digits n) = int n"
proof (induction n rule: digits.induct)
  case (1 n)
  show ?case
  proof (cases "n < 10")
    case True
    then show ?thesis by (subst digits.simps) (simp add: mathInt_def digitValue_digitChar)
  next
    case False
    then have "mathInt 10 (digits n) = int (n div 10) * 10 + int (n mod 10)"
      using 1 by (subst digits.simps) (simp add: mathInt_snoc digitValue_digitChar)
    then show ?thesis by (simp add: zdiv_int zmod_int)
  qed
qed

lemma trim_id:
  assumes "s \<noteq> []" and "\<not> isWhiteSpace (hd s)" and "\<not> isWhiteSpace (last s)"
  shows "trim s = s"
proof -
  have 1: "trimStart s = s" using assms(1,2) by (cases s) (simp_all add: trimStart_def)
  have "trimStart (rev s) = rev s"
    using assms(1,3) by (cases "rev s") (simp_all add: trimStart_def last_rev [symmetric] hd_rev)
  with 1 show ?thesis by (simp add: trim_def)
qed

lemma parseInt_decimal: "parseInt (decimal n) = toNumber n"
proof (cases "n < 0")
  case True
  have "parseInt (''-'' @ digits (nat (- n)) @ []) = toNumber (- 1 * mathInt 10 (digits (nat (- n))))"
    using parseInt_decimal_prefix [of "''-''" "digits (nat (- n))" "[]"]
    by (simp add: digits_not_Nil digits_decimal)
  with True show ?thesis by (simp add: decimal_def mathInt_digits)
next
  case False
  have "parseInt ([] @ digits (nat n) @ []) = toNumber (1 * mathInt 10 (digits (nat n)))"
    using parseInt_decimal_prefix [of "[]" "digits (nat n)" "[]"]
    by (simp add: digits_not_Nil digits_decimal)
  with False show ?thesis by (simp add: decimal_def mathInt_digits)
qed

lemma decimal_no_bar: "CHR ''|'' \<notin> set (decimal n)"
proof -
  have "\<not> isRadixDigit 10 CHR ''|''" by (simp add: isRadixDigit_def digitValue_def)
  then have "CHR ''|'' \<notin> set (digits k)" for k using digits_decimal [of k] by blast
  then show ?thesis by (simp add: decimal_def)
qed

lemma trim_decimal: "trim (decimal n) = decimal n"
proof (rule trim_id)
  show "decimal n \<noteq> []" by (simp add: decimal_def digits_not_Nil)
  have h: "isRadixDigit 10 (hd (digits k))" for k
    using digits_decimal [of k] digits_not_Nil [of k] by (cases "digits k") auto
  show "\<not> isWhiteSpace (hd (decimal n))"
    using decimal_not_white [OF h] by (simp add: decimal_def isWhiteSpace_def digits_not_Nil)
  have l: "isRadixDigit 10 (last (digits k))" for k
    using digits_decimal [of k] digits_not_Nil [of k] last_in_set by blast
  show "\<not> isWhiteSpace (last (decimal n))"
    using decimal_not_white [OF l] by (simp add: decimal_def digits_not_Nil)
qed

lemma parse_decimal:
  "parseRawText (''SAFE|'' @ decimal n @ ''|ok'') =
     \<lparr>isScam = False, scamLevel = ''SAFE'', scamPercentage = toNumber n, scamWarning = ''ok''\<rparr>"
proof -
  have sp: "split CHR ''|'' (''SAFE|'' @ decimal n @ ''|ok'') = [''SAFE'', decimal n, ''ok'']"
    using split_two [of "''SAFE''" "decimal n" "''ok''"] decimal_no_bar [of n] by simp
  have t0: "trim ''SAFE'' = ''SAFE''" by code_simp
  have t2: "trim ''ok'' = ''ok''" by code_simp
  show ?thesis
    unfolding parseRawText_def sp
    by (simp add: Let_def t0 t2 trim_decimal parseInt_decimal toNumber_not_NaN del: append.simps)
qed



section \<open>The claims about the parse\<close>

text \<open>
  C2, as the code has it. For a text of three or more segments with a valid level and a
  percentage that parses, the explanation is the third segment trimmed: the remainder
  after the first two delimiters only up to the next delimiter, so that text after a
  third \<^verbatim>\<open>|\<close> is dropped; an empty explanation is replaced by the fixed placeholder.
\<close>

theorem explanation_is_third_segment:
  assumes "3 \<le> length (split CHR ''|'' rawText)"
    and "trim (split CHR ''|'' rawText ! 0)
           \<in> set [''SAFE'', ''POTENTIAL_SCAM'', ''HIGHLY_LIKELY_SCAM'']"
    and "\<not> isNaN (parseInt (trim (split CHR ''|'' rawText ! 1)))"
  shows "scamWarning (parseRawText rawText) =
           (let remainder = afterDelimiter CHR ''|'' (afterDelimiter CHR ''|'' rawText);
                explanation = trim (takeWhile (\<lambda>c. c \<noteq> CHR ''|'') remainder)
            in if explanation = [] then ''No specific reason provided.'' else explanation)"
  using parse_accepts [OF assms] split_third [OF assms(1)]
  by (simp add: Let_def)

theorem explanation_is_third_segment_witness:
  "3 \<le> length (split CHR ''|'' ''SAFE|8|a|b'')
   \<and> trim (split CHR ''|'' ''SAFE|8|a|b'' ! 0) = ''SAFE''
   \<and> parseInt (trim (split CHR ''|'' ''SAFE|8|a|b'' ! 1)) = Num 8
   \<and> scamWarning (parseRawText ''SAFE|8|a|b'') = ''a''"
proof -
  have 1: "3 \<le> length (split CHR ''|'' ''SAFE|8|a|b'')" by code_simp
  have 2: "trim (split CHR ''|'' ''SAFE|8|a|b'' ! 0) = ''SAFE''" by code_simp
  have 3: "parseInt (trim (split CHR ''|'' ''SAFE|8|a|b'' ! 1)) = Num 8" by code_simp
  have 4: "(let remainder = afterDelimiter CHR ''|'' (afterDelimiter CHR ''|'' ''SAFE|8|a|b'');
                explanation = trim (takeWhile (\<lambda>c. c \<noteq> CHR ''|'') remainder)
            in if explanation = [] then ''No specific reason provided.'' else explanation) = ''a''"
    by code_simp
  have "scamWarning (parseRawText ''SAFE|8|a|b'') = ''a''"
    using explanation_is_third_segment [of "''SAFE|8|a|b''"] 1 2 3 4
    by (simp add: isNaN_def)
  with 1 2 3 show ?thesis by blast
qed

text \<open>
  C2 as stated fails: the text \<^verbatim>\<open>SAFE|8|a|b\<close> has four segments, the remainder after
  its first two delimiters is \<^verbatim>\<open>a|b\<close>, and the explanation returned is \<^verbatim>\<open>a\<close>.
\<close>

theorem explanation_remainder_counterexample:
  "3 \<le> length (split CHR ''|'' ''SAFE|8|a|b'')
   \<and> specExplanation ''SAFE|8|a|b'' = ''a|b''
   \<and> scamWarning (parseRawText ''SAFE|8|a|b'') = ''a''
   \<and> scamWarning (parseRawText ''SAFE|8|a|b'') \<noteq> specExplanation ''SAFE|8|a|b''"
  by code_simp

text \<open>
  C3. A text with fewer than two separators splits into fewer than three segments, and
  the parse returns the UNKNOWN result: level UNKNOWN, percentage 0, not a scam, and the
  fixed explanation. Nothing is thrown: the classifier called on a completion with such
  a text returns that same result.
\<close>

theorem few_separators_unknown:
  assumes "count_list rawText CHR ''|'' < 2"
  shows "length (split CHR ''|'' rawText) < 3
         \<and> parseRawText rawText =
             \<lparr>isScam = False, scamLevel = ''UNKNOWN'', scamPercentage = Num 0,
              scamWarning = ''Could not determine scam status from AI response.''\<rparr>
         \<and> checkMessageForScam typeErrorMessage (completion rawText) = parseRawText rawText"
proof -
  have len: "length (split CHR ''|'' rawText) < 3"
    using assms by (simp add: length_split)
  then have "parseRawText rawText = unknownResult"
    by (simp add: parseRawText_def)
  with len show ?thesis
    by (simp add: unknownResult_def completion_parsed)
qed

theorem few_separators_unknown_witness:
  "count_list ''SAFE|8'' CHR ''|'' < 2
   \<and> parseRawText ''SAFE|8'' =
       \<lparr>isScam = False, scamLevel = ''UNKNOWN'', scamPercentage = Num 0,
        scamWarning = ''Could not determine scam status from AI response.''\<rparr>"
  using few_separators_unknown [of "''SAFE|8''" "[]"] by simp

text \<open>
  C4. Every classification that the parse or the classifier call returns obeys the rule
  for \<open>isScam\<close>: with one of the three levels of the model it is \<open>level \<noteq> SAFE\<close>, with
  UNKNOWN or ERROR it is false. The three example texts parse to not a scam, a scam and
  a scam, with percentages 8, 35 and 75 and explanations x, y and z.
\<close>

theorem isScam_follows_level:
  "levelRule (parseRawText rawText)
   \<and> levelRule (checkMessageForScam typeErrorMessage outcome)
   \<and> parseRawText ''SAFE|8|x'' =
       \<lparr>isScam = False, scamLevel = ''SAFE'', scamPercentage = Num 8, scamWarning = ''x''\<rparr>
   \<and> parseRawText ''POTENTIAL_SCAM|35|y'' =
       \<lparr>isScam = True, scamLevel = ''POTENTIAL_SCAM'', scamPercentage = Num 35,
        scamWarning = ''y''\<rparr>
   \<and> parseRawText ''HIGHLY_LIKELY_SCAM|75|z'' =
       \<lparr>isScam = True, scamLevel = ''HIGHLY_LIKELY_SCAM'', scamPercentage = Num 75,
        scamWarning = ''z''\<rparr>"
proof -
  have 1: "levelRule (checkMessageForScam typeErrorMessage outcome)"
    using classifier_cases [of typeErrorMessage outcome]
    by (auto simp: levelRule_parse levelRule_error)
  have 2: "parseRawText ''SAFE|8|x'' =
       \<lparr>isScam = False, scamLevel = ''SAFE'', scamPercentage = Num 8, scamWarning = ''x''\<rparr>"
    by code_simp
  have 3: "parseRawText ''POTENTIAL_SCAM|35|y'' =
       \<lparr>isScam = True, scamLevel = ''POTENTIAL_SCAM'', scamPercentage = Num 35,
        scamWarning = ''y''\<rparr>"
    by code_simp
  have 4: "parseRawText ''HIGHLY_LIKELY_SCAM|75|z'' =
       \<lparr>isScam = True, scamLevel = ''HIGHLY_LIKELY_SCAM'', scamPercentage = Num 75,
        scamWarning = ''z''\<rparr>"
    by code_simp
  show ?thesis using levelRule_parse 1 2 3 4 by blast
qed

theorem isScam_follows_level_witness:
  "levelRule (parseRawText ''MAYBE|10|x'')
   \<and> levelRule (checkMessageForScam [] (FetchRejects ''Failed to fetch''))
   \<and> scamLevel (checkMessageForScam [] (FetchRejects ''Failed to fetch'')) = ''ERROR''
   \<and> isScam (checkMessageForScam [] (FetchRejects ''Failed to fetch'')) = False"
  using isScam_follows_level [of "''MAYBE|10|x''" "[]" "FetchRejects ''Failed to fetch''"]
  by (simp add: checkMessageForScam_def tryBlock_def errorResult_def)

text \<open>
  C5. With a valid level and a second segment that parses, the percentage returned is
  the number parsed, whatever its size: nothing clamps it to 0..100. So for every
  integer \<open>n\<close> the text \<^verbatim>\<open>SAFE|n|ok\<close>, with \<open>n\<close> written in decimal, parses to level
  SAFE, not a scam, and percentage \<open>n\<close>; \<^verbatim>\<open>SAFE|150|ok\<close> gives 150.
\<close>

theorem confidence_not_clamped:
  assumes "3 \<le> length (split CHR ''|'' rawText)"
    and "trim (split CHR ''|'' rawText ! 0)
           \<in> set [''SAFE'', ''POTENTIAL_SCAM'', ''HIGHLY_LIKELY_SCAM'']"
    and "\<not> isNaN (parseInt (trim (split CHR ''|'' rawText ! 1)))"
  shows "scamPercentage (parseRawText rawText) = parseInt (trim (split CHR ''|'' rawText ! 1))
         \<and> scamLevel (parseRawText rawText) = trim (split CHR ''|'' rawText ! 0)
         \<and> isScam (parseRawText rawText) = (trim (split CHR ''|'' rawText ! 0) \<noteq> ''SAFE'')
         \<and> parseRawText (''SAFE|'' @ decimal n @ ''|ok'') =
             \<lparr>isScam = False, scamLevel = ''SAFE'', scamPercentage = toNumber n,
              scamWarning = ''ok''\<rparr>"
  using parse_accepts [OF assms] parse_decimal [of n] by simp

theorem confidence_not_clamped_witness:
  "\<not> isNaN (parseInt (trim (split CHR ''|'' ''SAFE|150|ok'' ! 1)))
   \<and> parseRawText ''SAFE|150|ok'' =
       \<lparr>isScam = False, scamLevel = ''SAFE'', scamPercentage = Num 150, scamWarning = ''ok''\<rparr>"
proof -
  have 1: "3 \<le> length (split CHR ''|'' ''SAFE|150|ok'')" by code_simp
  have 2: "trim (split CHR ''|'' ''SAFE|150|ok'' ! 0) = ''SAFE''" by code_simp
  have 3: "parseInt (trim (split CHR ''|'' ''SAFE|150|ok'' ! 1)) = Num 150" by code_simp
  have 4: "''SAFE|'' @ decimal 150 @ ''|ok'' = ''SAFE|150|ok''" by code_simp
  have 5: "toNumber 150 = Num 150" by code_simp
  have "parseRawText (''SAFE|'' @ decimal 150 @ ''|ok'') =
          \<lparr>isScam = False, scamLevel = ''SAFE'', scamPercentage = toNumber 150,
           scamWarning = ''ok''\<rparr>"
    using confidence_not_clamped [of "''SAFE|150|ok''" 150] 1 2 3
    by (simp add: isNaN_def del: append.simps)
  then show ?thesis using 3 by (simp only: 4 5 isNaN_def) simp
qed

text \<open>
  C6. A text of three or more segments whose trimmed first segment is not one of the
  three level tokens, or whose trimmed second segment does not parse as an integer,
  parses to the UNKNOWN result, whatever the other field is.
\<close>

theorem invalid_field_unknown:
  assumes "3 \<le> length (split CHR ''|'' rawText)"
    and "trim (split CHR ''|'' rawText ! 0)
           \<notin> set [''SAFE'', ''POTENTIAL_SCAM'', ''HIGHLY_LIKELY_SCAM'']
         \<or> isNaN (parseInt (trim (split CHR ''|'' rawText ! 1)))"
  shows "parseRawText rawText =
           \<lparr>isScam = False, scamLevel = ''UNKNOWN'', scamPercentage = Num 0,
            scamWarning = ''Could not determine scam status from AI response.''\<rparr>"
  using assms by (auto simp: parseRawText_def Let_def unknownResult_def)

theorem invalid_field_unknown_witness:
  "3 \<le> length (split CHR ''|'' ''MAYBE|10|x'')
   \<and> trim (split CHR ''|'' ''MAYBE|10|x'' ! 0) = ''MAYBE''
   \<and> \<not> isNaN (parseInt (trim (split CHR ''|'' ''MAYBE|10|x'' ! 1)))
   \<and> parseRawText ''MAYBE|10|x'' =
       \<lparr>isScam = False, scamLevel = ''UNKNOWN'', scamPercentage = Num 0,
        scamWarning = ''Could not determine scam status from AI response.''\<rparr>"
proof -
  have 1: "3 \<le> length (split CHR ''|'' ''MAYBE|10|x'')" by code_simp
  have 2: "trim (split CHR ''|'' ''MAYBE|10|x'' ! 0) = ''MAYBE''" by code_simp
  have 3: "\<not> isNaN (parseInt (trim (split CHR ''|'' ''MAYBE|10|x'' ! 1)))" by code_simp
  show ?thesis
    using invalid_field_unknown [of "''MAYBE|10|x''"] 1 2 3 by simp
qed

text \<open>
  C10, as the code has it. When the trimmed second segment is an optional sign, then
  decimal digits, then either nothing or a character that is no decimal digit, and the
  digits are not a lone 0 followed by x or X, the integer check succeeds and the
  percentage is the signed value of the digits, with the valid level kept.
\<close>

theorem decimal_prefix_accepted:
  assumes "3 \<le> length (split CHR ''|'' rawText)"
    and "trim (split CHR ''|'' rawText ! 0)
           \<in> set [''SAFE'', ''POTENTIAL_SCAM'', ''HIGHLY_LIKELY_SCAM'']"
    and "trim (split CHR ''|'' rawText ! 1) = sg @ ds @ rest"
    and "sg \<in> set [[], ''+'', ''-'']"
    and "ds \<noteq> []" and "\<forall>c\<in>set ds. isRadixDigit 10 c"
    and "case rest of [] \<Rightarrow> True
         | r # _ \<Rightarrow> \<not> isRadixDigit 10 r
                    \<and> \<not> (ds = ''0'' \<and> r \<in> set [CHR ''x'', CHR ''X''])"
  shows "\<not> isNaN (parseInt (trim (split CHR ''|'' rawText ! 1)))
         \<and> scamPercentage (parseRawText rawText) =
             toNumber ((if sg = ''-'' then - 1 else 1) * mathInt 10 ds)
         \<and> scamLevel (parseRawText rawText) = trim (split CHR ''|'' rawText ! 0)"
proof -
  have p: "parseInt (trim (split CHR ''|'' rawText ! 1)) =
             toNumber ((if sg = ''-'' then - 1 else 1) * mathInt 10 ds)"
    using parseInt_decimal_prefix [OF assms(4) assms(5) assms(6) assms(7)] assms(3) by simp
  then have n: "\<not> isNaN (parseInt (trim (split CHR ''|'' rawText ! 1)))"
    by (simp add: toNumber_not_NaN)
  show ?thesis
    using parse_accepts [OF assms(1) assms(2) n] p n by simp
qed

theorem decimal_prefix_accepted_witness:
  "trim (split CHR ''|'' ''SAFE|12abc|x'' ! 1) = [] @ ''12'' @ ''abc''
   \<and> scamPercentage (parseRawText ''SAFE|12abc|x'') = Num 12
   \<and> scamLevel (parseRawText ''SAFE|12abc|x'') = ''SAFE''"
proof -
  have 1: "3 \<le> length (split CHR ''|'' ''SAFE|12abc|x'')" by code_simp
  have 2: "trim (split CHR ''|'' ''SAFE|12abc|x'' ! 0) = ''SAFE''" by code_simp
  have 3: "trim (split CHR ''|'' ''SAFE|12abc|x'' ! 1) = [] @ ''12'' @ ''abc''" by code_simp
  have 4: "\<forall>c\<in>set ''12''. isRadixDigit 10 c" by code_simp
  have 5: "\<not> isRadixDigit 10 CHR ''a''" by code_simp
  have 6: "toNumber (1 * mathInt 10 ''12'') = Num 12" by code_simp
  have "scamPercentage (parseRawText ''SAFE|12abc|x'') = toNumber (1 * mathInt 10 ''12'')
         \<and> scamLevel (parseRawText ''SAFE|12abc|x'') = ''SAFE''"
    using decimal_prefix_accepted [of "''SAFE|12abc|x''" "[]" "''12''" "''abc''"] 1 2 3 4 5
    by simp
  with 3 6 show ?thesis by simp
qed

text \<open>
  C10 as stated fails: the second segment of \<^verbatim>\<open>SAFE|0xZ|x\<close> is the decimal digit 0
  followed by characters that are no decimal digits, yet \<^verbatim>\<open>parseInt\<close> reads \<^verbatim>\<open>0x\<close> as
  the prefix of a hexadecimal numeral, finds no digit after it and returns NaN, and the
  parse falls back to UNKNOWN.
\<close>

theorem decimal_prefix_counterexample:
  "trim (split CHR ''|'' ''SAFE|0xZ|x'' ! 1) = ''0'' @ ''xZ''
   \<and> isRadixDigit 10 CHR ''0'' \<and> \<not> isRadixDigit 10 CHR ''x''
   \<and> isNaN (parseInt (trim (split CHR ''|'' ''SAFE|0xZ|x'' ! 1)))
   \<and> scamLevel (parseRawText ''SAFE|0xZ|x'') = ''UNKNOWN''"
  by code_simp

section \<open>The classifier call never throws\<close>

lemma fetch_rejects: "checkMessageForScam typeErrorMessage (FetchRejects msg) = errorResult msg"
  by (simp add: checkMessageForScam_def tryBlock_def)

lemma not_ok_error:
  assumes "\<not> ok response"
  shows "checkMessageForScam typeErrorMessage (FetchResolves response) =
           errorResult (case json response of
                          Inl msg \<Rightarrow> msg
                        | Inr errorData \<Rightarrow>
                            ''AI API request failed: '' @ statusText response @ '' - ''
                            @ errorDataMessage errorData)"
  using assms by (simp add: checkMessageForScam_def tryBlock_def split: sum.splits)

lemma no_candidates_error:
  assumes "ok response" and "json response = Inr (Some result)"
    and "candidates result = None \<or> candidates result = Some []"
  shows "checkMessageForScam typeErrorMessage (FetchResolves response) =
           errorResult ''Could not understand the AI response. Unexpected format.''"
  using assms by (auto simp: checkMessageForScam_def tryBlock_def)

text \<open>
  C7. Every failure of the call is returned as a classification and not thrown: a
  rejected \<^verbatim>\<open>fetch\<close>, a response that is not ok (whether or not its body can be read),
  and an ok response with no candidates each give level ERROR, percentage 0, not a
  scam, and an explanation that starts with \<^verbatim>\<open>Error during analysis: \<close> and goes on
  with the message of the exception or the status of the response. Whatever the
  outcome, the call returns such an error result or the parse of a text.
\<close>

theorem failures_become_error:
  "checkMessageForScam typeErrorMessage (FetchRejects msg) =
     \<lparr>isScam = False, scamLevel = ''ERROR'', scamPercentage = Num 0,
      scamWarning = ''Error during analysis: '' @ msg\<rparr>
   \<and> (\<not> ok response \<longrightarrow>
        checkMessageForScam typeErrorMessage (FetchResolves response) =
          \<lparr>isScam = False, scamLevel = ''ERROR'', scamPercentage = Num 0,
           scamWarning = ''Error during analysis: ''
             @ (case json response of
                  Inl jsonError \<Rightarrow> jsonError
                | Inr errorData \<Rightarrow>
                    ''AI API request failed: '' @ statusText response @ '' - ''
                    @ errorDataMessage errorData)\<rparr>)
   \<and> (ok response' \<and> json response' = Inr (Some result)
        \<and> (candidates result = None \<or> candidates result = Some []) \<longrightarrow>
        checkMessageForScam typeErrorMessage (FetchResolves response') =
          \<lparr>isScam = False, scamLevel = ''ERROR'', scamPercentage = Num 0,
           scamWarning = ''Error during analysis: ''
             @ ''Could not understand the AI response. Unexpected format.''\<rparr>)
   \<and> ((\<exists>detail. checkMessageForScam typeErrorMessage outcome =
          \<lparr>isScam = False, scamLevel = ''ERROR'', scamPercentage = Num 0,
           scamWarning = ''Error during analysis: '' @ detail\<rparr>)
       \<or> (\<exists>rawText. checkMessageForScam typeErrorMessage outcome = parseRawText rawText))"
  using fetch_rejects [of typeErrorMessage msg] not_ok_error [of response typeErrorMessage]
    no_candidates_error [of response' result typeErrorMessage]
    classifier_cases [of typeErrorMessage outcome]
  unfolding errorResult_def by blast

theorem failures_become_error_witness:
  "checkMessageForScam [] (FetchResolves
       \<lparr>ok = False, statusText = ''Too Many Requests'',
        json = Inr (Some \<lparr>error = Some \<lparr>message = Some ''Quota exceeded''\<rparr>,
                          candidates = None\<rparr>)\<rparr>) =
     \<lparr>isScam = False, scamLevel = ''ERROR'', scamPercentage = Num 0,
      scamWarning =
        ''Error during analysis: AI API request failed: Too Many Requests - Quota exceeded''\<rparr>
   \<and> checkMessageForScam [] (FetchResolves
       \<lparr>ok = True, statusText = ''OK'',
        json = Inr (Some \<lparr>error = None, candidates = Some []\<rparr>)\<rparr>) =
     \<lparr>isScam = False, scamLevel = ''ERROR'', scamPercentage = Num 0,
      scamWarning =
        ''Error during analysis: Could not understand the AI response. Unexpected format.''\<rparr>"
  using failures_become_error
    [of "[]" "[]"
        "\<lparr>ok = False, statusText = ''Too Many Requests'',
          json = Inr (Some \<lparr>error = Some \<lparr>message = Some ''Quota exceeded''\<rparr>,
                            candidates = None\<rparr>)\<rparr>"
        "\<lparr>ok = True, statusText = ''OK'',
          json = Inr (Some \<lparr>error = None, candidates = Some []\<rparr>)\<rparr>"
        "\<lparr>error = None, candidates = Some []\<rparr>"
        "FetchRejects []"]
  by (simp add: errorDataMessage_def)

section \<open>The order of the messages on display\<close>

lemma insertBy_time: "insertBy (compareFn fl) x ys = insort_key (time fl) x ys"
  by (induction ys) (simp_all add: compareFn_def)

lemma sortedMessages_sort_key: "sortedMessages fl messages = sort_key (time fl) messages"
  by (induction messages) (simp_all add: sortedMessages_def sortBy_def insertBy_time)

lemma time_pending: "timestamp m = None \<Longrightarrow> time fl m = 0"
  by (simp add: time_def)

lemma pending_first:
  assumes pos: "\<forall>m\<in>set messages. timestamp m \<noteq> None \<longrightarrow> 0 < time fl m"
  shows "sort_key (time fl) messages =
           filter (\<lambda>m. timestamp m = None) messages
           @ sort_key (time fl) (filter (\<lambda>m. timestamp m \<noteq> None) messages)"
    (is "sort_key ?f ?xs = ?ps @ ?ts")
proof (rule properties_for_sort_key)
  show "mset (?ps @ ?ts) = mset ?xs"
    by (simp add: multiset_partition [symmetric])
  have zero: "\<forall>m\<in>set ?ps. ?f m = 0" by (simp add: time_pending)
  have posi: "\<forall>m\<in>set ?ts. 0 < ?f m" using pos by simp
  have "sorted (map ?f ?ps)"
    using zero by (induction messages) (auto simp: time_pending)
  moreover have "sorted (map ?f ?ts)" by simp
  ultimately show "sorted (map ?f (?ps @ ?ts))"
    using zero posi by (auto simp: sorted_append dest!: bspec intro: less_imp_le)
  fix k assume k: "k \<in> set (?ps @ ?ts)"
  have iff: "\<forall>m\<in>set messages. (timestamp m = None) = (?f m = 0)"
    using pos by (auto simp: time_pending)
  show "filter (\<lambda>x. ?f k = ?f x) (?ps @ ?ts) = filter (\<lambda>x. ?f k = ?f x) ?xs"
  proof (cases "?f k = 0")
    case True
    have "filter (\<lambda>x. ?f k = ?f x) ?ts = []"
      using posi True by (auto simp: filter_empty_conv)
    moreover have "filter (\<lambda>x. ?f k = ?f x) ?ps = ?ps"
      unfolding filter_id_conv using True by (simp add: time_pending)
    moreover have "filter (\<lambda>x. ?f k = ?f x) ?xs = ?ps"
      using iff True by (auto intro!: filter_cong)
    ultimately show ?thesis by simp
  next
    case False
    have "filter (\<lambda>x. ?f k = ?f x) ?ps = []"
      using zero False by (auto simp: filter_empty_conv)
    moreover have "filter (\<lambda>x. ?f k = ?f x) ?ts
        = filter (\<lambda>x. ?f k = ?f x) (filter (\<lambda>m. timestamp m \<noteq> None) messages)"
      using sort_key_stable [of ?f "?f k" "filter (\<lambda>m. timestamp m \<noteq> None) messages"]
      by (simp add: eq_commute)
    moreover have "filter (\<lambda>x. ?f k = ?f x) (filter (\<lambda>m. timestamp m \<noteq> None) messages)
        = filter (\<lambda>x. ?f k = ?f x) ?xs"
    proof -
      have "?f k = ?f x \<Longrightarrow> timestamp x \<noteq> None" for x
        using False time_pending [of x fl] by auto
      then show ?thesis by (auto intro!: filter_cong)
    qed
    ultimately show ?thesis by simp
  qed
qed

text \<open>
  C1, as the code has it. The display sort is a stable sort by ascending time: its
  result has the messages of its input, in ascending order of their times, and messages
  of equal time keep their order. A message with no timestamp has time 0. So when every
  timestamp present gives a positive time, the messages with no timestamp come first, in
  the order they had, and the others follow in ascending order of time: for timestamps
  [none, 5, 2, none] the view is [none, none, 2, 5].
\<close>

theorem pending_sorted_first:
  "mset (sortedMessages fl messages) = mset messages
   \<and> sorted (map (time fl) (sortedMessages fl messages))
   \<and> (\<forall>k. filter (\<lambda>m. time fl m = k) (sortedMessages fl messages)
           = filter (\<lambda>m. time fl m = k) messages)
   \<and> (\<forall>m\<in>set messages. timestamp m = None \<longrightarrow> time fl m = 0)
   \<and> ((\<forall>m\<in>set messages. timestamp m \<noteq> None \<longrightarrow> 0 < time fl m) \<longrightarrow>
        sortedMessages fl messages =
          filter (\<lambda>m. timestamp m = None) messages
          @ sortedMessages fl (filter (\<lambda>m. timestamp m \<noteq> None) messages))"
  using pending_first [of messages fl]
  by (simp add: sortedMessages_sort_key sort_key_stable time_pending)

theorem pending_sorted_first_witness:
  "0 < time (\<lambda>x. x) (messageAt ''b'' (wholeSecond 5))
   \<and> 0 < time (\<lambda>x. x) (messageAt ''c'' (wholeSecond 2))
   \<and> sortedMessages (\<lambda>x. x)
        [messageAt ''a'' None, messageAt ''b'' (wholeSecond 5),
         messageAt ''c'' (wholeSecond 2), messageAt ''d'' None]
      = [messageAt ''a'' None, messageAt ''d'' None,
         messageAt ''c'' (wholeSecond 2), messageAt ''b'' (wholeSecond 5)]"
proof -
  let ?ms = "[messageAt ''a'' None, messageAt ''b'' (wholeSecond 5),
         messageAt ''c'' (wholeSecond 2), messageAt ''d'' None]"
  have 1: "\<forall>m\<in>set ?ms. timestamp m \<noteq> None \<longrightarrow> 0 < time (\<lambda>x. x) m"
    by (simp add: messageAt_def wholeSecond_def time_def)
  have 2: "filter (\<lambda>m. timestamp m = None) ?ms = [messageAt ''a'' None, messageAt ''d'' None]"
    by (simp add: messageAt_def wholeSecond_def)
  have 3: "sortedMessages (\<lambda>x. x) (filter (\<lambda>m. timestamp m \<noteq> None) ?ms)
           = [messageAt ''c'' (wholeSecond 2), messageAt ''b'' (wholeSecond 5)]"
    by (simp add: messageAt_def wholeSecond_def sortedMessages_def sortBy_def compareFn_def time_def)
  have "sortedMessages (\<lambda>x. x) ?ms =
          filter (\<lambda>m. timestamp m = None) ?ms
          @ sortedMessages (\<lambda>x. x) (filter (\<lambda>m. timestamp m \<noteq> None) ?ms)"
    using pending_sorted_first [of "\<lambda>x. x" ?ms] 1 by blast
  moreover have "0 < time (\<lambda>x. x) (messageAt ''b'' (wholeSecond 5))
      \<and> 0 < time (\<lambda>x. x) (messageAt ''c'' (wholeSecond 2))"
    by (simp add: messageAt_def wholeSecond_def time_def)
  ultimately show ?thesis by (simp only: 2 3) simp
qed

text \<open>
  C1 as stated fails: for timestamps [none, 5, 2, none] the two messages with no
  timestamp are placed before those with timestamps 2 and 5, not after them.
\<close>

theorem pending_sorted_last_counterexample:
  "sortedMessages (\<lambda>x. x)
     [messageAt ''a'' None, messageAt ''b'' (wholeSecond 5),
      messageAt ''c'' (wholeSecond 2), messageAt ''d'' None]
   = [messageAt ''a'' None, messageAt ''d'' None,
      messageAt ''c'' (wholeSecond 2), messageAt ''b'' (wholeSecond 5)]
   \<and> sortedMessages (\<lambda>x. x)
     [messageAt ''a'' None, messageAt ''b'' (wholeSecond 5),
      messageAt ''c'' (wholeSecond 2), messageAt ''d'' None]
   \<noteq> [messageAt ''c'' (wholeSecond 2), messageAt ''b'' (wholeSecond 5),
      messageAt ''a'' None, messageAt ''d'' None]"
  by (simp add: messageAt_def wholeSecond_def sortedMessages_def sortBy_def compareFn_def time_def)

section \<open>One turn at a time\<close>

lemma oneAtATime_initial: "oneAtATime (initial stored)"
  by (simp add: oneAtATime_def initial_def)

lemma oneAtATime_step:
  assumes "oneAtATime s"
  shows "oneAtATime (step e s)"
proof (cases e)
  case (AuthStateChanged uid)
  with assms show ?thesis by (simp add: oneAtATime_def)
next
  case (SendMessage x)
  with assms show ?thesis
    by (auto simp: oneAtATime_def handleSendMessage_def split: option.splits)
next
  case (AddDocResolves i)
  with assms show ?thesis
    by (auto simp: oneAtATime_def Let_def suspendAt_def addDoc_def finish_def
        split: suspended.splits)
next
  case (AddDocRejects i)
  with assms show ?thesis
    by (auto simp: oneAtATime_def finish_def)
next
  case (AnalysisReturns i typeErrorMessage outcome)
  with assms show ?thesis
    by (auto simp: oneAtATime_def suspendAt_def)
qed

lemma oneAtATime_run: "oneAtATime s \<Longrightarrow> oneAtATime (run evs s)"
  unfolding run_def by (induction evs arbitrary: s) (simp_all add: oneAtATime_step)

lemma run_Cons: "run (e # evs) s = run evs (step e s)"
  by (simp add: run_def)

lemma guard_rejects: "isSendingMessage s \<Longrightarrow> handleSendMessage txt s = s"
  by (simp add: handleSendMessage_def split: option.splits)

lemma inFlight_example:
  "inFlight (run [AuthStateChanged ''u1'', SendMessage ''first'', AddDocResolves 0]
              (initial (\<lambda>uid. []))) =
     [\<lparr>turnUserId = ''u1'', turnText = ''first'', awaiting = AwaitAiDoc\<rparr>]"
  by (simp add: run_def initial_def handleSendMessage_def suspendAt_def addDoc_def)

lemma turn_run:
  assumes "userId s = Some uid" and "uid \<noteq> []" and "\<not> isSendingMessage s"
    and "inFlight s = []"
  shows "run [SendMessage txt, AddDocResolves 0, AddDocResolves 0,
              AnalysisReturns 0 typeErrorMessage outcome, AddDocResolves 0] s =
         s\<lparr>messagesOf := (messagesOf s)
              (uid := messagesOf s uid
                 @ [userDoc txt, aiDoc, finalDoc (checkMessageForScam typeErrorMessage outcome)])\<rparr>"
  using assms
  by (cases s)
     (simp add: run_def handleSendMessage_def suspendAt_def addDoc_def finish_def fun_eq_iff)

text \<open>
  C8. From a state with a user and no call in flight, a call of \<^verbatim>\<open>handleSendMessage\<close>
  whose three writes succeed appends exactly three documents to the user's collection
  and changes nothing else: the user's message with the text given, the AI message
  with the fixed text and no classification, and the AI message that carries the
  classification returned. This is so whatever the outcome of the classifier call; when
  the request fails or the response is not ok, that classification has level ERROR.
\<close>

theorem turn_appends_three_records:
  assumes "userId s = Some uid" and "uid \<noteq> []" and "\<not> isSendingMessage s"
    and "inFlight s = []"
  shows "run [SendMessage txt, AddDocResolves 0, AddDocResolves 0,
              AnalysisReturns 0 typeErrorMessage outcome, AddDocResolves 0] s =
         s\<lparr>messagesOf := (messagesOf s)
              (uid := messagesOf s uid
                 @ [\<lparr>msgText = txt, sender = user, analysis = None\<rparr>,
                    \<lparr>msgText = ''I've analyzed this message for potential scam indicators.'', sender = ai, analysis = None\<rparr>,
                    \<lparr>msgText = ''Analysis complete.'', sender = ai,
                     analysis = Some (checkMessageForScam typeErrorMessage outcome)\<rparr>])\<rparr>
         \<and> scamLevel (checkMessageForScam typeErrorMessage (FetchRejects msg)) = ''ERROR''
         \<and> (\<not> ok response \<longrightarrow>
              scamLevel (checkMessageForScam typeErrorMessage (FetchResolves response)) = ''ERROR'')"
  using turn_run [OF assms, of "txt" typeErrorMessage outcome]
    fetch_rejects [of typeErrorMessage msg] not_ok_error [of response typeErrorMessage]
  by (simp add: userDoc_def aiDoc_def finalDoc_def errorResult_def)

theorem turn_appends_three_records_witness:
  "messagesOf
     (run [SendMessage ''You won a prize'', AddDocResolves 0, AddDocResolves 0,
           AnalysisReturns 0 [] (FetchRejects ''Failed to fetch''), AddDocResolves 0]
        ((initial (\<lambda>uid. []))\<lparr>userId := Some ''u1''\<rparr>)) ''u1'' =
     [\<lparr>msgText = ''You won a prize'', sender = user, analysis = None\<rparr>,
      \<lparr>msgText = ''I've analyzed this message for potential scam indicators.'', sender = ai, analysis = None\<rparr>,
      \<lparr>msgText = ''Analysis complete.'', sender = ai,
       analysis = Some \<lparr>isScam = False, scamLevel = ''ERROR'', scamPercentage = Num 0,
                        scamWarning = ''Error during analysis: Failed to fetch''\<rparr>\<rparr>]"
proof -
  let ?s = "(initial (\<lambda>uid. []))\<lparr>userId := Some ''u1''\<rparr>"
  have 1: "userId ?s = Some ''u1''" "''u1'' \<noteq> []" "\<not> isSendingMessage ?s" "inFlight ?s = []"
    by (simp_all add: initial_def)
  have 2: "checkMessageForScam [] (FetchRejects ''Failed to fetch'') =
       \<lparr>isScam = False, scamLevel = ''ERROR'', scamPercentage = Num 0,
        scamWarning = ''Error during analysis: Failed to fetch''\<rparr>"
    by (simp add: checkMessageForScam_def tryBlock_def errorResult_def)
  show ?thesis
    using turn_appends_three_records [OF 1, of "''You won a prize''" "[]" "FetchRejects ''Failed to fetch''" "[]"]
    by (simp add: 2 initial_def)
qed

text \<open>
  C9. In every state that the component reaches, at most one call is in flight, and
  while one is, a further call of \<^verbatim>\<open>handleSendMessage\<close> changes nothing: it writes no
  document and starts no turn, so whatever happens later happens as if it had not been
  made.
\<close>

theorem second_submission_rejected:
  "length (inFlight (run evs (initial stored))) \<le> 1
   \<and> (inFlight (run evs (initial stored)) \<noteq> [] \<longrightarrow>
        step (SendMessage txt) (run evs (initial stored)) = run evs (initial stored)
        \<and> run (SendMessage txt # later) (run evs (initial stored))
            = run later (run evs (initial stored)))"
proof -
  have inv: "oneAtATime (run evs (initial stored))"
    by (rule oneAtATime_run [OF oneAtATime_initial])
  then have "inFlight (run evs (initial stored)) \<noteq> [] \<Longrightarrow>
      step (SendMessage txt) (run evs (initial stored)) = run evs (initial stored)"
    by (simp add: oneAtATime_def guard_rejects)
  with inv show ?thesis by (simp add: oneAtATime_def run_Cons)
qed

theorem second_submission_rejected_witness:
  "inFlight (run [AuthStateChanged ''u1'', SendMessage ''first'', AddDocResolves 0]
              (initial (\<lambda>uid. []))) \<noteq> []
   \<and> step (SendMessage ''second'')
        (run [AuthStateChanged ''u1'', SendMessage ''first'', AddDocResolves 0]
           (initial (\<lambda>uid. [])))
      = run [AuthStateChanged ''u1'', SendMessage ''first'', AddDocResolves 0]
          (initial (\<lambda>uid. []))"
  using second_submission_rejected
    [of "[AuthStateChanged ''u1'', SendMessage ''first'', AddDocResolves 0]" "\<lambda>uid. []"
        "''second''" "[]"]
  by (simp add: inFlight_example)

end
